theory Spec2Isabelle
  imports Main
begin

section \<open>Rendered element trees\<close>

text \<open>
  The application is a set of React function components. A component returns a tree of
  elements; the model keeps that tree as data. A prop value is a string, a number or an
  imported asset (\<^verbatim>\<open>import logo from '../assets/logo.svg'\<close>, kept as the import
  path). An event-handler prop holds a closure: the handlers of \<^verbatim>\<open>Quiz.jsx\<close> are
  created during a render and capture the \<^verbatim>\<open>answers\<close> of that render.
\<close>

datatype pval = S string | N int | Asset string

datatype closure =
    SubmitQuiz "string list"
  | OnChange "string list"

datatype node =
    Text string
  | Num int
  | Elem string "(string \<times> pval) list" "(string \<times> closure) list" "node list"

fun tag :: "node \<Rightarrow> string" where
  "tag (Elem t ps hs cs) = t"
| "tag (Text s) = []"
| "tag (Num k) = []"

fun attr :: "string \<Rightarrow> node \<Rightarrow> pval option" where
  "attr a (Elem t ps hs cs) = map_of ps a"
| "attr a (Text s) = None"
| "attr a (Num k) = None"

fun listener :: "string \<Rightarrow> node \<Rightarrow> closure option" where
  "listener k (Elem t ps hs cs) = map_of hs k"
| "listener k (Text s) = None"
| "listener k (Num n) = None"

fun children :: "node \<Rightarrow> node list" where
  "children (Elem t ps hs cs) = cs"
| "children (Text s) = []"
| "children (Num k) = []"

section \<open>Components without state: \<^verbatim>\<open>Navbar\<close>, \<^verbatim>\<open>Footer\<close>, \<^verbatim>\<open>Home\<close>\<close>

definition Navbar :: node where
  "Navbar =
     Elem ''nav'' [(''className'', S ''navbar'')] []
       [Elem ''h1'' [] [] [Text ''RepuCycle''],
        Elem ''ul'' [] []
          [Elem ''li'' [] [] [Elem ''Link'' [(''to'', S ''/'')] [] [Text ''Home'']],
           Elem ''li'' [] [] [Elem ''Link'' [(''to'', S ''/quiz'')] [] [Text ''Quiz'']],
           Elem ''li'' [] [] [Elem ''Link'' [(''to'', S ''/challenge'')] [] [Text ''Challenges'']]]]"

text \<open>
  Strings are byte strings, text beyond ASCII in UTF-8: the footer text starts with the
  copyright sign, the bytes \<open>0xC2 0xA9\<close>.
\<close>

definition Footer :: node where
  "Footer =
     Elem ''footer'' [(''className'', S ''footer'')] []
       [Elem ''p'' [] [] [Text (CHR 0xC2 # CHR 0xA9 # '' 2024 RepuCycle. All Rights Reserved.'')]]"

definition Home :: node where
  "Home =
     Elem ''div'' [(''className'', S ''home'')] []
       [Elem ''header'' [(''className'', S ''home-header'')] []
          [Elem ''img'' [(''src'', Asset ''../assets/logo.svg''), (''className'', S ''home-logo''),
                         (''alt'', S ''logo'')] [] [],
           Elem ''h1'' [] [] [Text ''Welcome to RepuCycle''],
           Elem ''p'' [] []
             [Text ''Promoting Sustainable Waste Management with Tokenized Incentives.''],
           Elem ''button'' [(''className'', S ''get-started'')] [] [Text ''Get Started'']]]"

section \<open>The quiz view\<close>

text \<open>
  \<^verbatim>\<open>const [answers, setAnswers] = useState([])\<close>: the state of the view is the list
  \<open>answers\<close>. The two handlers are closures over it. An event object is reduced to
  what a handler can read: its type and \<^verbatim>\<open>e.target.value\<close> (the empty string for
  a target without a value; no handler reads it there). What a handler does is a list
  of effects; \<open>PreventDefault\<close> stands for \<^verbatim>\<open>e.preventDefault()\<close>.
\<close>

record event =
  etype :: string
  target_value :: string

datatype effect =
    SetAnswers "string list"
  | ConsoleLog string "string list"
  | PreventDefault

definition submitQuiz :: "string list \<Rightarrow> event \<Rightarrow> effect list" where
  "submitQuiz answers e = [ConsoleLog ''Quiz submitted with answers: '' answers]"

definition onChange :: "string list \<Rightarrow> event \<Rightarrow> effect list" where
  "onChange answers e = [SetAnswers (answers @ [target_value e])]"

fun call :: "closure \<Rightarrow> event \<Rightarrow> effect list" where
  "call (SubmitQuiz answers) e = submitQuiz answers e"
| "call (OnChange answers) e = onChange answers e"

text \<open>The JSX comment \<^verbatim>\<open>{/* Example question */}\<close> renders no child.\<close>

definition Quiz :: "string list \<Rightarrow> node" where
  "Quiz answers =
     Elem ''div'' [(''className'', S ''quiz-page'')] []
       [Elem ''h2'' [] [] [Text ''Waste Management Quiz''],
        Elem ''form'' [] [(''onSubmit'', SubmitQuiz answers)]
          [Elem ''label'' [] [] [Text ''1. What is the most recyclable material?''],
           Elem ''input'' [(''type'', S ''text'')] [(''onChange'', OnChange answers)] [],
           Elem ''button'' [(''type'', S ''submit'')] [] [Text ''Submit Quiz'']]]"

section \<open>The challenge view\<close>

record challenge =
  challenge_id :: int
  description :: string
  reward :: int

text \<open>The argument of \<^verbatim>\<open>useState\<close> in \<^verbatim>\<open>Challenge\<close>; the setter is not bound.\<close>

definition challenges_init :: "challenge list" where
  "challenges_init =
     [\<lparr>challenge_id = 1, description = ''Recycle 10kg of plastic'', reward = 50\<rparr>,
      \<lparr>challenge_id = 2, description = ''Collect and segregate organic waste'', reward = 30\<rparr>]"

definition challenge_item :: "challenge \<Rightarrow> node" where
  "challenge_item c =
     Elem ''li'' [(''key'', N (challenge_id c))] []
       [Text (description c), Text '' - Earn '', Num (reward c), Text '' tokens'',
        Elem ''button'' [] [] [Text ''Accept Challenge'']]"

definition Challenge :: "challenge list \<Rightarrow> node" where
  "Challenge challenges =
     Elem ''div'' [(''className'', S ''challenge-page'')] []
       [Elem ''h2'' [] [] [Text ''Challenges''],
        Elem ''ul'' [] [] (map challenge_item challenges)]"

section \<open>Routing\<close>

text \<open>
  \<^verbatim>\<open>App\<close> declares three routes inside \<^verbatim>\<open>Routes\<close>. The router library is not
  part of the repository; the model follows its matching of a static pattern (no
  parameter, no wildcard) against the location pathname with the default options the
  source leaves in place: the pattern loses its trailing slashes and gets one leading
  slash, letters compare without regard to ASCII case, and the pathname may end in any
  number of further slashes.
\<close>

datatype component = HomeC | QuizC | ChallengeC

definition routes :: "(string \<times> component) list" where
  "routes = [(''/'', HomeC), (''/quiz'', QuizC), (''/challenge'', ChallengeC)]"

definition is_slash :: "char \<Rightarrow> bool" where
  "is_slash c = (c = CHR ''/'')"

definition to_lower :: "char \<Rightarrow> char" where
  "to_lower c =
     (case map_of (zip ''ABCDEFGHIJKLMNOPQRSTUVWXYZ'' ''abcdefghijklmnopqrstuvwxyz'') c of
        None \<Rightarrow> c
      | Some l \<Rightarrow> l)"

definition compilePath :: "string \<Rightarrow> string" where
  "compilePath pattern = CHR ''/'' # dropWhile is_slash (rev (dropWhile is_slash (rev pattern)))"

definition matchPath :: "string \<Rightarrow> string \<Rightarrow> bool" where
  "matchPath pattern pathname =
     (let p = compilePath pattern in
      map to_lower (take (length p) pathname) = map to_lower p \<and>
      list_all is_slash (drop (length p) pathname))"

fun matchRoutes :: "(string \<times> component) list \<Rightarrow> string \<Rightarrow> component option" where
  "matchRoutes [] pathname = None"
| "matchRoutes ((pattern, c) # rs) pathname =
     (if matchPath pattern pathname then Some c else matchRoutes rs pathname)"

text \<open>
  The router matches the pathname of the address (the address up to its query or
  fragment) after decoding it: each percent escape becomes the byte it stands for,
  except that an escaped slash stays escaped, written \<^verbatim>\<open>%2F\<close>. When an escape is
  malformed (no two hexadecimal digits) or the decoded bytes are not well-formed UTF-8,
  the decoding fails as a whole and the router matches the pathname as it is. An address
  is ASCII, as the browser gives it.
\<close>

definition hex_digit :: "char \<Rightarrow> nat option" where
  "hex_digit c =
     map_of
       [(CHR ''0'', 0), (CHR ''1'', 1), (CHR ''2'', 2), (CHR ''3'', 3), (CHR ''4'', 4),
        (CHR ''5'', 5), (CHR ''6'', 6), (CHR ''7'', 7), (CHR ''8'', 8), (CHR ''9'', 9),
        (CHR ''a'', 10), (CHR ''b'', 11), (CHR ''c'', 12), (CHR ''d'', 13), (CHR ''e'', 14),
        (CHR ''f'', 15), (CHR ''A'', 10), (CHR ''B'', 11), (CHR ''C'', 12), (CHR ''D'', 13),
        (CHR ''E'', 14), (CHR ''F'', 15)] c"

text \<open>The character with the code \<open>n\<close>, bit by bit from the lowest.\<close>

definition byte :: "nat \<Rightarrow> char" where
  "byte n =
     Char (odd n) (odd (n div 2)) (odd (n div 4)) (odd (n div 8))
          (odd (n div 16)) (odd (n div 32)) (odd (n div 64)) (odd (n div 128))"

fun unescape :: "string \<Rightarrow> string option" where
  "unescape [] = Some []"
| "unescape (c # cs) =
     (if c = CHR ''%'' then
        (case cs of
           h # l # rest \<Rightarrow>
             (case (hex_digit h, hex_digit l) of
                (Some a, Some b) \<Rightarrow>
                  map_option
                    ((@) (if 16 * a + b = 47 then ''%2F'' else [byte (16 * a + b)]))
                    (unescape rest)
              | _ \<Rightarrow> None)
         | _ \<Rightarrow> None)
      else map_option ((#) c) (unescape cs))"

text \<open>
  Well-formed UTF-8: for a lead byte, the range of the second byte and the number of
  continuation bytes after it (no overlong form, no surrogate, nothing above
  \<open>0x10FFFF\<close>).
\<close>

definition utf8_sequence :: "nat \<Rightarrow> (nat \<times> nat \<times> nat) option" where
  "utf8_sequence b =
     (if 0xC2 \<le> b \<and> b \<le> 0xDF then Some (0x80, 0xBF, 0)
      else if b = 0xE0 then Some (0xA0, 0xBF, 1)
      else if b = 0xED then Some (0x80, 0x9F, 1)
      else if 0xE1 \<le> b \<and> b \<le> 0xEF then Some (0x80, 0xBF, 1)
      else if b = 0xF0 then Some (0x90, 0xBF, 2)
      else if 0xF1 \<le> b \<and> b \<le> 0xF3 then Some (0x80, 0xBF, 2)
      else if b = 0xF4 then Some (0x80, 0x8F, 2)
      else None)"

definition continuation :: "nat \<Rightarrow> bool" where
  "continuation b = (0x80 \<le> b \<and> b \<le> 0xBF)"

fun utf8 :: "nat list \<Rightarrow> bool" where
  "utf8 [] = True"
| "utf8 (b # bs) =
     (if b < 0x80 then utf8 bs
      else
        (case utf8_sequence b of
           None \<Rightarrow> False
         | Some (lo, hi, k) \<Rightarrow>
             (case bs of
                [] \<Rightarrow> False
              | c # r \<Rightarrow>
                  lo \<le> c \<and> c \<le> hi \<and> k \<le> length r \<and> list_all continuation (take k r) \<and>
                  utf8 (drop k r))))"

definition decodePath :: "string \<Rightarrow> string" where
  "decodePath s =
     (case unescape s of
        None \<Rightarrow> s
      | Some d \<Rightarrow> if utf8 (map of_char d) then d else s)"

definition raw_pathname :: "string \<Rightarrow> string" where
  "raw_pathname u = takeWhile (\<lambda>c. c \<noteq> CHR ''?'' \<and> c \<noteq> CHR ''#'') u"

definition pathname_of :: "string \<Rightarrow> string" where
  "pathname_of u = decodePath (raw_pathname u)"

section \<open>The application and its events\<close>

text \<open>
  A mounted page is the matched route element with the state of its hooks; the quiz
  also owns the text field of the document, whose content is not React state (the
  input is uncontrolled). The world is the address, the mounted page and the console.
\<close>

datatype mounted =
    HomeM
  | QuizM "string list" string
  | ChallengeM "challenge list"

record world =
  url :: string
  page :: "mounted option"
  console :: "(string \<times> string list) list"

fun mount :: "component \<Rightarrow> mounted" where
  "mount HomeC = HomeM"
| "mount QuizC = QuizM [] []"
| "mount ChallengeC = ChallengeM challenges_init"

fun component_of :: "mounted \<Rightarrow> component" where
  "component_of HomeM = HomeC"
| "component_of (QuizM answers field) = QuizC"
| "component_of (ChallengeM challenges) = ChallengeC"

fun render :: "mounted \<Rightarrow> node" where
  "render HomeM = Home"
| "render (QuizM answers field) = Quiz answers"
| "render (ChallengeM challenges) = Challenge challenges"

definition App :: "world \<Rightarrow> node" where
  "App w =
     Elem ''div'' [(''className'', S ''App'')] []
       ([Navbar] @ (case page w of None \<Rightarrow> [] | Some m \<Rightarrow> [render m]) @ [Footer])"

text \<open>
  Loading the document at an address mounts the matched route afresh. A click on a
  \<^verbatim>\<open>Link\<close> changes the address without a load: a page of the same component stays
  mounted with its state, any other page is replaced by a fresh one.
\<close>

definition load :: "string \<Rightarrow> (string \<times> string list) list \<Rightarrow> world" where
  "load u out =
     \<lparr>url = u, page = map_option mount (matchRoutes routes (pathname_of u)), console = out\<rparr>"

definition navigate :: "world \<Rightarrow> string \<Rightarrow> world" where
  "navigate w target =
     (let c = matchRoutes routes (pathname_of target) in
      w\<lparr>url := target,
        page := (if map_option component_of (page w) = c then page w else map_option mount c)\<rparr>)"

fun perform :: "world \<Rightarrow> effect \<Rightarrow> world" where
  "perform w (SetAnswers xs) =
     w\<lparr>page := (case page w of Some (QuizM answers field) \<Rightarrow> Some (QuizM xs field) | p \<Rightarrow> p)\<rparr>"
| "perform w (ConsoleLog s xs) = w\<lparr>console := console w @ [(s, xs)]\<rparr>"
| "perform w PreventDefault = w"

definition answers_of :: "world \<Rightarrow> string list" where
  "answers_of w = (case page w of Some (QuizM answers field) \<Rightarrow> answers | _ \<Rightarrow> [])"

definition field_of :: "world \<Rightarrow> string" where
  "field_of w = (case page w of Some (QuizM answers field) \<Rightarrow> field | _ \<Rightarrow> [])"


definition set_field :: "world \<Rightarrow> string \<Rightarrow> world" where
  "set_field w v =
     w\<lparr>page := (case page w of Some (QuizM answers field) \<Rightarrow> Some (QuizM answers v) | p \<Rightarrow> p)\<rparr>"

text \<open>
  An event has a target, given by its position in the rendered tree (child indices from
  the root). \<open>chain\<close> is the list of nodes from the root down to the target; the event
  bubbles along it from the target upwards and every listener for it on the way runs.
\<close>

fun chain :: "nat list \<Rightarrow> node \<Rightarrow> node list option" where
  "chain [] n = Some [n]"
| "chain (i # js) n =
     (if i < length (children n) then map_option ((#) n) (chain js (children n ! i)) else None)"

definition fire :: "string \<Rightarrow> event \<Rightarrow> node list \<Rightarrow> effect list" where
  "fire k e bubble =
     concat (map (\<lambda>n. case listener k n of None \<Rightarrow> [] | Some h \<Rightarrow> call h e) bubble)"

text \<open>
  The default action of a submit event that no listener cancelled is the submission of
  the form. The form of the quiz has no \<^verbatim>\<open>action\<close> and no \<^verbatim>\<open>method\<close> and none of
  its controls has a \<^verbatim>\<open>name\<close>: the submission is a GET of the document's own address
  with the query replaced by an empty one (the fragment stays), which loads the document
  again.
\<close>

definition submission_url :: "string \<Rightarrow> string" where
  "submission_url u = raw_pathname u @ ''?'' @ dropWhile (\<lambda>c. c \<noteq> CHR ''#'') u"

definition submit :: "world \<Rightarrow> node list \<Rightarrow> world" where
  "submit w bubble =
     (let effs = fire ''onSubmit'' \<lparr>etype = ''submit'', target_value = []\<rparr> bubble;
          w' = foldl perform w effs
      in if PreventDefault \<in> set effs then w'
         else load (submission_url (url w')) (console w'))"

fun form_owner :: "world \<Rightarrow> node list \<Rightarrow> world" where
  "form_owner w [] = w"
| "form_owner w (n # outer) =
     (if tag n = ''form'' then submit w (n # outer) else form_owner w outer)"

text \<open>
  The default action of a click is that of the innermost \<^verbatim>\<open>Link\<close> or button around
  the target: a \<^verbatim>\<open>Link\<close> navigates to its \<^verbatim>\<open>to\<close>; a button whose type is neither
  \<^verbatim>\<open>button\<close> nor \<^verbatim>\<open>reset\<close> submits the form it is in, if it is in one.
\<close>

fun activate :: "world \<Rightarrow> node list \<Rightarrow> world" where
  "activate w [] = w"
| "activate w (n # outer) =
     (if tag n = ''Link'' then (case attr ''to'' n of Some (S t) \<Rightarrow> navigate w t | _ \<Rightarrow> w)
      else if tag n = ''button'' then
        (if attr ''type'' n = Some (S ''button'') \<or> attr ''type'' n = Some (S ''reset'') then w
         else form_owner w outer)
      else activate w outer)"

datatype user_event =
    Visit string
  | Click "nat list"
  | Change "nat list" string
  | Submit "nat list"

text \<open>
  \<open>Change pos v\<close>: an edit of the text field at \<open>pos\<close> after which its content is
  \<open>v\<close>. React delivers the change event, with \<open>v\<close> as target value, only when \<open>v\<close>
  differs from the content it saw last; an edit that leaves the content as it was
  delivers nothing. \<open>Submit pos\<close>: a submit event at the form at \<open>pos\<close> (the Enter key
  in one of its fields). Events are handled one at a time, each on the tree rendered
  from the world the previous one left.
\<close>

fun step :: "world \<Rightarrow> user_event \<Rightarrow> world" where
  "step w (Visit u) = load u (console w)"
| "step w (Click pos) =
     (case chain pos (App w) of
        None \<Rightarrow> w
      | Some ns \<Rightarrow>
          (let effs = fire ''onClick'' \<lparr>etype = ''click'', target_value = []\<rparr> (rev ns);
               w' = foldl perform w effs
           in if PreventDefault \<in> set effs then w' else activate w' (rev ns)))"
| "step w (Change pos v) =
     (case map_option rev (chain pos (App w)) of
        Some (n # outer) \<Rightarrow>
          (if tag n = ''input'' \<and> v \<noteq> field_of w
           then foldl perform (set_field w v)
                  (fire ''onChange'' \<lparr>etype = ''change'', target_value = v\<rparr> (n # outer))
           else w)
      | _ \<Rightarrow> w)"
| "step w (Submit pos) =
     (case map_option rev (chain pos (App w)) of
        Some (n # outer) \<Rightarrow> (if tag n = ''form'' then submit w (n # outer) else w)
      | _ \<Rightarrow> w)"

definition run :: "world \<Rightarrow> user_event list \<Rightarrow> world" where
  "run w evs = foldl step w evs"

section \<open>What a rendered tree shows\<close>

fun texts :: "node \<Rightarrow> string list" where
  "texts (Text s) = [s]"
| "texts (Num k) = []"
| "texts (Elem t ps hs cs) = concat (map texts cs)"

fun headings :: "node \<Rightarrow> string list" where
  "headings (Elem t ps hs cs) =
     (if t = ''h1'' \<or> t = ''h2'' then [concat (concat (map texts cs))]
      else concat (map headings cs))"
| "headings (Text s) = []"
| "headings (Num k) = []"

fun link_targets :: "node \<Rightarrow> string list" where
  "link_targets (Elem t ps hs cs) =
     (if t = ''Link'' then (case map_of ps ''to'' of Some (S p) \<Rightarrow> [p] | _ \<Rightarrow> [])
      else concat (map link_targets cs))"
| "link_targets (Text s) = []"
| "link_targets (Num k) = []"

fun list_items :: "node \<Rightarrow> node list" where
  "list_items (Elem t ps hs cs) =
     (if t = ''li'' then [Elem t ps hs cs] else concat (map list_items cs))"
| "list_items (Text s) = []"
| "list_items (Num k) = []"

fun subnodes :: "node \<Rightarrow> node list" where
  "subnodes (Elem t ps hs cs) = Elem t ps hs cs # concat (map subnodes cs)"
| "subnodes (Text s) = [Text s]"
| "subnodes (Num k) = [Num k]"

fun node_at :: "nat list \<Rightarrow> node \<Rightarrow> node option" where
  "node_at [] n = Some n"
| "node_at (i # js) n =
     (if i < length (children n) then node_at js (children n ! i) else None)"

text \<open>
  Positions in the tree of \<open>App\<close>: child 0 is the navigation bar, child 1 the page
  (when a route matched), the last child the footer.
\<close>

definition quiz_form :: "nat list" where
  "quiz_form = [1, 1]"

definition quiz_input :: "nat list" where
  "quiz_input = [1, 1, 1]"

definition get_started :: "nat list" where
  "get_started = [1, 0, 3]"

definition accept_challenge :: "nat \<Rightarrow> nat list" where
  "accept_challenge i = [1, 1, i, 4]"

definition nav_link :: "nat \<Rightarrow> nat list" where
  "nav_link i = [0, 1, i, 0]"

text \<open>
  Typing a character at the end of the text field: the content grows by the character
  and the change event carries the new content.
\<close>

definition type_char :: "world \<Rightarrow> char \<Rightarrow> world" where
  "type_char w c = step w (Change quiz_input (field_of w @ [c]))"

definition type_text :: "world \<Rightarrow> string \<Rightarrow> world" where
  "type_text w s = foldl type_char w s"

text \<open>The invariant of the challenge view: its list is the one it was mounted with.\<close>

definition challenges_kept :: "world \<Rightarrow> bool" where
  "challenges_kept w =
     (case page w of Some (ChallengeM cs) \<Rightarrow> cs = challenges_init | _ \<Rightarrow> True)"

text \<open>
  A node is inert when it has no listener and is neither a \<^verbatim>\<open>Link\<close> nor a form nor
  an input: an event on a chain of inert nodes runs nothing and has no default action.
\<close>

fun inert :: "node \<Rightarrow> bool" where
  "inert (Elem t ps hs cs) = (hs = [] \<and> t \<noteq> ''Link'' \<and> t \<noteq> ''form'' \<and> t \<noteq> ''input'')"
| "inert (Text s) = True"
| "inert (Num k) = True"







section \<open>Proof tools\<close>

lemmas tree_defs = App_def Navbar_def Footer_def Home_def Quiz_def Challenge_def challenge_item_def
lemmas decode_defs = decodePath_def hex_digit_def byte_def utf8_sequence_def continuation_def
lemmas route_defs = routes_def pathname_of_def raw_pathname_def decode_defs matchPath_def
  compilePath_def is_slash_def to_lower_def
lemmas position_defs = quiz_form_def quiz_input_def get_started_def accept_challenge_def nav_link_def

lemma mount_challenges: "mount c = ChallengeM cs \<Longrightarrow> cs = challenges_init"
  by (cases c) simp_all

lemma challenges_kept_perform: "challenges_kept w \<Longrightarrow> challenges_kept (perform w eff)"
  by (cases eff) (auto simp: challenges_kept_def split: option.splits mounted.splits)

lemma challenges_kept_foldl: "challenges_kept w \<Longrightarrow> challenges_kept (foldl perform w effs)"
  by (induction effs arbitrary: w) (simp_all add: challenges_kept_perform)

lemma challenges_kept_load: "challenges_kept (load u out)"
  by (auto simp: challenges_kept_def load_def split: option.splits mounted.splits
           dest: mount_challenges)

lemma challenges_kept_navigate: "challenges_kept w \<Longrightarrow> challenges_kept (navigate w t)"
  by (auto simp: challenges_kept_def navigate_def Let_def split: option.splits mounted.splits
           dest: mount_challenges)

lemma challenges_kept_set_field: "challenges_kept w \<Longrightarrow> challenges_kept (set_field w v)"
  by (auto simp: challenges_kept_def set_field_def split: option.splits mounted.splits)

lemma challenges_kept_submit: "challenges_kept w \<Longrightarrow> challenges_kept (submit w ns)"
  by (simp add: submit_def Let_def challenges_kept_load challenges_kept_foldl)

lemma challenges_kept_form_owner: "challenges_kept w \<Longrightarrow> challenges_kept (form_owner w ns)"
  by (induction ns) (simp_all add: challenges_kept_submit)

lemma challenges_kept_activate: "challenges_kept w \<Longrightarrow> challenges_kept (activate w ns)"
  by (induction ns)
     (auto simp: challenges_kept_navigate challenges_kept_form_owner
           split: option.splits pval.splits)

lemma challenges_kept_step: "challenges_kept w \<Longrightarrow> challenges_kept (step w e)"
proof (cases e)
  case (Visit u)
  then show ?thesis by (simp add: challenges_kept_load)
next
  case (Click pos)
  assume "challenges_kept w"
  then show ?thesis using Click
    by (auto simp: Let_def challenges_kept_foldl challenges_kept_activate split: option.splits)
next
  case (Change pos v)
  assume "challenges_kept w"
  then show ?thesis using Change
    by (auto simp: challenges_kept_foldl challenges_kept_set_field split: option.splits list.splits)
next
  case (Submit pos)
  assume "challenges_kept w"
  then show ?thesis using Submit
    by (auto simp: challenges_kept_submit split: option.splits list.splits)
qed

lemma challenges_kept_run: "challenges_kept w \<Longrightarrow> challenges_kept (run w evs)"
  unfolding run_def by (induction evs arbitrary: w) (simp_all add: challenges_kept_step)

lemma reachable_challenges:
  "page (run (load u out) evs) = Some (ChallengeM cs) \<Longrightarrow> cs = challenges_init"
  using challenges_kept_run [OF challenges_kept_load, of u out evs]
  by (simp add: challenges_kept_def)


subsection \<open>A view that is not mounted has no answers\<close>












subsection \<open>Events on the quiz\<close>

lemma change_quiz:
  "page w = Some (QuizM answers field) \<Longrightarrow> v \<noteq> field \<Longrightarrow>
   step w (Change quiz_input v) = w\<lparr>page := Some (QuizM (answers @ [v]) v)\<rparr>"
  by (simp add: position_defs tree_defs set_field_def fire_def onChange_def field_of_def)

lemma change_same:
  "page w = Some (QuizM answers field) \<Longrightarrow> step w (Change quiz_input field) = w"
  by (simp add: position_defs tree_defs field_of_def)

lemma changes_quiz:
  "page w = Some (QuizM answers field) \<Longrightarrow> distinct_adj (field # vs) \<Longrightarrow>
   page (run w (map (Change quiz_input) vs)) = Some (QuizM (answers @ vs) (last (field # vs)))"
proof (induction vs arbitrary: w answers field)
  case Nil
  then show ?case by (simp add: run_def)
next
  case (Cons v vs)
  from Cons.prems(2) have v: "v \<noteq> field" and rest: "distinct_adj (v # vs)"
    by auto
  have "page (step w (Change quiz_input v)) = Some (QuizM (answers @ [v]) v)"
    using change_quiz [OF Cons.prems(1) v] by simp
  from Cons.IH [OF this rest] show ?case by (simp add: run_def)
qed

lemma type_char_quiz:
  "page w = Some (QuizM answers field) \<Longrightarrow>
   type_char w c = w\<lparr>page := Some (QuizM (answers @ [field @ [c]]) (field @ [c]))\<rparr>"
  using change_quiz [of w answers field "field @ [c]"]
  by (simp add: type_char_def field_of_def del: step.simps)

lemma prefixes_Cons:
  "map (\<lambda>k. f @ take k (c # s)) [1..<Suc (length (c # s))] =
   (f @ [c]) # map (\<lambda>k. (f @ [c]) @ take k s) [1..<Suc (length s)]"
proof -
  have "[1..<Suc (length (c # s))] = 1 # map Suc [1..<Suc (length s)]"
    by (simp add: upt_conv_Cons map_Suc_upt del: upt_Suc)
  then show ?thesis by (simp add: comp_def del: upt_Suc)
qed

lemma type_text_quiz:
  "page w = Some (QuizM answers field) \<Longrightarrow>
   page (type_text w s) =
     Some (QuizM (answers @ map (\<lambda>k. field @ take k s) [1..<Suc (length s)]) (field @ s))"
proof (induction s arbitrary: w answers field)
  case Nil
  then show ?case by (simp add: type_text_def)
next
  case (Cons c s)
  have "page (type_char w c) = Some (QuizM (answers @ [field @ [c]]) (field @ [c]))"
    using type_char_quiz [OF Cons.prems] by simp
  from Cons.IH [OF this]
  have later: "page (type_text (type_char w c) s) =
      Some (QuizM ((answers @ [field @ [c]]) @
                     map (\<lambda>k. (field @ [c]) @ take k s) [1..<Suc (length s)])
                  ((field @ [c]) @ s))" .
  have first: "type_text w (c # s) = type_text (type_char w c) s"
    by (simp add: type_text_def)
  show ?case unfolding first later prefixes_Cons by simp
qed


subsection \<open>Chains and the nodes of a tree\<close>

lemma subnodes_self: "n \<in> set (subnodes n)"
  by (cases n) simp_all

lemma subnodes_child: "c \<in> set (children n) \<Longrightarrow> set (subnodes c) \<subseteq> set (subnodes n)"
  by (cases n) auto

lemma chain_subnodes: "chain pos n = Some ns \<Longrightarrow> set ns \<subseteq> set (subnodes n)"
proof (induction pos arbitrary: n ns)
  case Nil
  then show ?case by (auto simp: subnodes_self)
next
  case (Cons i js)
  from Cons.prems obtain ns' where
    i: "i < length (children n)" and
    sub: "chain js (children n ! i) = Some ns'" and
    ns: "ns = n # ns'"
    by (auto split: if_splits)
  have "set ns' \<subseteq> set (subnodes (children n ! i))"
    using Cons.IH [OF sub] .
  moreover have "set (subnodes (children n ! i)) \<subseteq> set (subnodes n)"
    using i by (simp add: subnodes_child)
  ultimately show ?case using ns by (auto simp: subnodes_self)
qed

lemma fire_none: "list_all (\<lambda>m. listener k m = None) ns \<Longrightarrow> fire k e ns = []"
  by (induction ns) (simp_all add: fire_def)

lemma form_owner_none: "list_all (\<lambda>m. tag m \<noteq> ''form'') ns \<Longrightarrow> form_owner w ns = w"
  by (induction ns) simp_all

lemma activate_none:
  "list_all (\<lambda>m. tag m \<noteq> ''Link'' \<and> tag m \<noteq> ''form'') ns \<Longrightarrow> activate w ns = w"
proof (induction ns)
  case Nil
  then show ?case by simp
next
  case (Cons n ns)
  then have "list_all (\<lambda>m. tag m \<noteq> ''form'') ns"
    by (simp add: list_all_iff)
  then have "form_owner w ns = w" by (rule form_owner_none)
  then show ?case using Cons by simp
qed

lemma inert_node:
  "inert m \<Longrightarrow>
   listener k m = None \<and> tag m \<noteq> ''Link'' \<and> tag m \<noteq> ''form'' \<and> tag m \<noteq> ''input''"
  by (cases m) simp_all

lemma challenge_inert: "m \<in> set (subnodes (Challenge cs)) \<Longrightarrow> inert m"
  by (auto simp: Challenge_def challenge_item_def)

lemma chain_page:
  "page w = Some m \<Longrightarrow> chain (1 # pos) (App w) = map_option ((#) (App w)) (chain pos (render m))"
  by (simp add: App_def)

lemma App_inert: "inert (App w)"
  by (simp add: App_def)

lemma inert_chain:
  assumes "page w = Some m" and "\<forall>x \<in> set (subnodes (render m)). inert x"
    and "chain (1 # pos) (App w) = Some ns"
  shows "list_all inert ns"
proof -
  have "map_option ((#) (App w)) (chain pos (render m)) = Some ns"
    using assms(3) by (simp only: chain_page [OF assms(1)])
  then obtain ns' where sub: "chain pos (render m) = Some ns'" and ns: "ns = App w # ns'"
    by auto
  have "set ns' \<subseteq> set (subnodes (render m))" using chain_subnodes [OF sub] .
  with assms(2) have "list_all inert ns'" by (auto simp: list_all_iff)
  moreover have "inert (App w)" by (rule App_inert)
  ultimately show ?thesis using ns by simp
qed

lemma inert_events:
  assumes "page w = Some m" and "\<forall>x \<in> set (subnodes (render m)). inert x"
  shows "step w (Click (1 # pos)) = w \<and> step w (Change (1 # pos) v) = w \<and>
         step w (Submit (1 # pos)) = w"
proof (cases "chain (1 # pos) (App w)")
  case None
  then show ?thesis by simp
next
  case (Some ns)
  have all: "list_all inert (rev ns)"
    using inert_chain [OF assms Some] by (simp add: list_all_iff)
  have "fire ''onClick'' e (rev ns) = []" for e
    using all by (intro fire_none) (simp add: list_all_iff inert_node)
  moreover have "activate w (rev ns) = w"
    using all by (intro activate_none) (simp add: list_all_iff inert_node)
  moreover have "tag n \<noteq> ''input'' \<and> tag n \<noteq> ''form''" if "rev ns = n # outer" for n outer
    using all that by (simp add: inert_node)
  ultimately show ?thesis using Some
    by (auto simp del: chain.simps split: list.splits)
qed


lemma home_inert: "m \<in> set (subnodes Home) \<Longrightarrow> inert m"
  by (auto simp: Home_def)

subsection \<open>The answers stay in the view\<close>





































subsection \<open>What the console receives\<close>
















subsection \<open>Matching\<close>

lemma to_lower_slash: "(to_lower c = CHR ''/'') = (c = CHR ''/'')"
  by (auto simp: to_lower_def split: if_splits)

lemma all_slashes: "list_all is_slash xs \<Longrightarrow> xs = replicate (length xs) (CHR ''/'')"
  by (induction xs) (simp_all add: is_slash_def)

lemma lower_slashes:
  "map to_lower xs = replicate k (CHR ''/'') \<Longrightarrow> list_all is_slash xs"
proof (induction xs arbitrary: k)
  case Nil
  then show ?case by simp
next
  case (Cons x xs)
  then obtain j where "k = Suc j" by (cases k) auto
  with Cons show ?case by (auto simp: is_slash_def to_lower_slash)
qed

lemma matchPath_iff:
  "matchPath pat p =
     (\<exists>k. map to_lower p = map to_lower (compilePath pat) @ replicate k (CHR ''/''))"
proof
  let ?c = "compilePath pat"
  assume "matchPath pat p"
  then have a: "map to_lower (take (length ?c) p) = map to_lower ?c"
    and b: "list_all is_slash (drop (length ?c) p)"
    by (simp_all add: matchPath_def Let_def)
  have "map to_lower p = map to_lower (take (length ?c) p) @ map to_lower (drop (length ?c) p)"
    by (simp flip: map_append)
  also have "map to_lower (drop (length ?c) p) =
      map to_lower (replicate (length (drop (length ?c) p)) (CHR ''/''))"
    using all_slashes [OF b] by simp
  also have "\<dots> = replicate (length (drop (length ?c) p)) (CHR ''/'')"
    by (simp add: to_lower_slash)
  finally show "\<exists>k. map to_lower p = map to_lower ?c @ replicate k (CHR ''/'')"
    using a by auto
next
  let ?c = "compilePath pat"
  assume "\<exists>k. map to_lower p = map to_lower ?c @ replicate k (CHR ''/'')"
  then obtain k where k: "map to_lower p = map to_lower ?c @ replicate k (CHR ''/'')" ..
  have "map to_lower (take (length ?c) p) = take (length ?c) (map to_lower p)"
    by (simp add: take_map)
  then have a: "map to_lower (take (length ?c) p) = map to_lower ?c"
    using k by simp
  have "map to_lower (drop (length ?c) p) = drop (length ?c) (map to_lower p)"
    by (simp add: drop_map)
  then have "map to_lower (drop (length ?c) p) = replicate k (CHR ''/'')"
    using k by simp
  then have "list_all is_slash (drop (length ?c) p)" by (rule lower_slashes)
  with a show "matchPath pat p" by (simp add: matchPath_def Let_def)
qed

lemma compiled_routes:
  "map to_lower (compilePath ''/'') = ''/''"
  "map to_lower (compilePath ''/quiz'') = ''/quiz''"
  "map to_lower (compilePath ''/challenge'') = ''/challenge''"
  by (simp_all add: compilePath_def is_slash_def to_lower_def)



lemma not_ex3:
  "(\<not> (\<exists>k. P k) \<and> \<not> (\<exists>k. Q k) \<and> \<not> (\<exists>k. R k)) = (\<forall>k. \<not> P k \<and> \<not> Q k \<and> \<not> R k)"
  by blast

lemma ex_clash: "(\<And>k j. f k \<noteq> g j) \<Longrightarrow> \<not> ((\<exists>k. x = f k) \<and> (\<exists>j. x = g j))"
  by metis

lemma no_route_iff:
  "(matchRoutes routes p = None) =
     (\<forall>k. \<not> map to_lower p = ''/'' @ replicate k (CHR ''/'') \<and>
          \<not> map to_lower p = ''/quiz'' @ replicate k (CHR ''/'') \<and>
          \<not> map to_lower p = ''/challenge'' @ replicate k (CHR ''/''))"
proof -
  have "(matchRoutes routes p = None) =
      (\<not> matchPath ''/'' p \<and> \<not> matchPath ''/quiz'' p \<and> \<not> matchPath ''/challenge'' p)"
    by (simp add: routes_def)
  then show ?thesis unfolding matchPath_iff compiled_routes by (simp only: not_ex3)
qed

text \<open>No pathname matches two of the routes: their order does not matter.\<close>

lemma routes_disjoint:
  "\<not> (matchPath ''/'' p \<and> matchPath ''/quiz'' p) \<and>
   \<not> (matchPath ''/'' p \<and> matchPath ''/challenge'' p) \<and>
   \<not> (matchPath ''/quiz'' p \<and> matchPath ''/challenge'' p)"
proof -
  have a: "''/'' @ replicate k (CHR ''/'') \<noteq> ''/quiz'' @ replicate j (CHR ''/'')" for k j
    by (cases k) simp_all
  have b: "''/'' @ replicate k (CHR ''/'') \<noteq> ''/challenge'' @ replicate j (CHR ''/'')" for k j
    by (cases k) simp_all
  have c: "''/quiz'' @ replicate k (CHR ''/'') \<noteq> ''/challenge'' @ replicate j (CHR ''/'')" for k j
    by simp
  have "\<not> (matchPath ''/'' p \<and> matchPath ''/quiz'' p)"
    unfolding matchPath_iff compiled_routes by (rule ex_clash) (rule a)
  moreover have "\<not> (matchPath ''/'' p \<and> matchPath ''/challenge'' p)"
    unfolding matchPath_iff compiled_routes by (rule ex_clash) (rule b)
  moreover have "\<not> (matchPath ''/quiz'' p \<and> matchPath ''/challenge'' p)"
    unfolding matchPath_iff compiled_routes by (rule ex_clash) (rule c)
  ultimately show ?thesis by (intro conjI)
qed


subsection \<open>Headings\<close>

lemma headings_App:
  "page w = Some m \<Longrightarrow> headings (App w) = ''RepuCycle'' # headings (render m)"
  by (simp add: App_def Navbar_def Footer_def)

lemma headings_render:
  "headings (render m) =
     (case component_of m of
        HomeC \<Rightarrow> [''Welcome to RepuCycle'']
      | QuizC \<Rightarrow> [''Waste Management Quiz'']
      | ChallengeC \<Rightarrow> [''Challenges''])"
  by (cases m) (simp_all add: Home_def Quiz_def Challenge_def challenge_item_def)

lemma matched_routes:
  "matchRoutes routes (pathname_of ''/'') = Some HomeC"
  "matchRoutes routes (pathname_of ''/quiz'') = Some QuizC"
  "matchRoutes routes (pathname_of ''/challenge'') = Some ChallengeC"
  by (simp_all add: route_defs)

lemma component_mount: "component_of (mount c) = c"
  by (cases c) simp_all

lemma navigate_component:
  "matchRoutes routes (pathname_of t) = Some c \<Longrightarrow>
   \<exists>m. page (navigate w t) = Some m \<and> component_of m = c"
  by (cases "page w") (auto simp: navigate_def component_mount)

lemma load_component:
  "matchRoutes routes (pathname_of t) = Some c \<Longrightarrow>
   \<exists>m. page (load t out) = Some m \<and> component_of m = c"
  by (simp add: load_def component_mount)

lemma click_nav_link:
  "step w (Click (nav_link 0)) = navigate w ''/''"
  "step w (Click (nav_link 1)) = navigate w ''/quiz''"
  "step w (Click (nav_link 2)) = navigate w ''/challenge''"
  by (simp_all add: nav_link_def App_def Navbar_def fire_def)

lemma headings_of_component:
  "page w = Some m \<Longrightarrow> component_of m = c \<Longrightarrow>
   headings (App w) = ''RepuCycle'' #
     (case c of HomeC \<Rightarrow> [''Welcome to RepuCycle''] | QuizC \<Rightarrow> [''Waste Management Quiz'']
      | ChallengeC \<Rightarrow> [''Challenges''])"
  by (simp add: headings_App headings_render)

section \<open>The claims\<close>

text \<open>
  Claim C1. Submitting the quiz form is claimed not to navigate away and to leave the
  answer sequence unchanged, its only effect being the diagnostic print. The handler
  \<open>submitQuiz\<close> does only print, but it never cancels the default action of the submit
  event, so the form is submitted: with one answer given, the submission (by the Enter
  key or by the submit button) prints the answers, loads the document again at
  \<^verbatim>\<open>/quiz?\<close> and leaves a fresh quiz view whose answer sequence is empty.
\<close>

theorem submit_reloads_document:
  "submitQuiz answers e = [ConsoleLog ''Quiz submitted with answers: '' answers] \<and>
   run (load ''/quiz'' []) [Change quiz_input ''glass'', Submit quiz_form] =
     \<lparr>url = ''/quiz?'', page = Some (QuizM [] []),
      console = [(''Quiz submitted with answers: '', [''glass''])]\<rparr> \<and>
   run (load ''/quiz'' []) [Change quiz_input ''glass'', Click [1, 1, 2]] =
     \<lparr>url = ''/quiz?'', page = Some (QuizM [] []),
      console = [(''Quiz submitted with answers: '', [''glass''])]\<rparr>"
  by (simp add: run_def load_def route_defs tree_defs position_defs set_field_def fire_def
        onChange_def submit_def submitQuiz_def submission_url_def field_of_def)

text \<open>
  Claim C2. A change event on the text input of the quiz (one is delivered when an edit
  leaves the field with another content than before) makes the answer sequence one
  entry longer, keeps the entries it had in their order and puts the value of the field
  last; \<open>n\<close> change events in a row add their \<open>n\<close> values in the order of the events,
  so a fresh view holds exactly these afterwards. An edit that leaves the content as it
  was delivers no change event and adds nothing.
\<close>

theorem change_appends_one_answer:
  assumes "page w = Some (QuizM answers field)" and "v \<noteq> field"
    and "distinct_adj (field # vs)"
  shows "length (answers_of (step w (Change quiz_input v))) = Suc (length (answers_of w)) \<and>
         take (length (answers_of w)) (answers_of (step w (Change quiz_input v))) = answers_of w \<and>
         last (answers_of (step w (Change quiz_input v))) = v \<and>
         answers_of (run w (map (Change quiz_input) vs)) = answers_of w @ vs \<and>
         length (answers_of (run w (map (Change quiz_input) vs))) =
           length (answers_of w) + length vs \<and>
         (distinct_adj ([] # us) \<longrightarrow>
            answers_of (run (load ''/quiz'' out) (map (Change quiz_input) us)) = us) \<and>
         step w (Change quiz_input field) = w"
proof -
  have fresh: "page (load ''/quiz'' out) = Some (QuizM [] [])"
    by (simp add: load_def route_defs)
  have one: "page (step w (Change quiz_input v)) = Some (QuizM (answers @ [v]) v)"
    using change_quiz [OF assms(1,2)] by simp
  have many: "page (run w (map (Change quiz_input) vs)) =
      Some (QuizM (answers @ vs) (last (field # vs)))"
    using assms(1,3) by (rule changes_quiz)
  have first: "distinct_adj ([] # us) \<longrightarrow>
      answers_of (run (load ''/quiz'' out) (map (Change quiz_input) us)) = us"
    using changes_quiz [OF fresh, of us] by (simp add: answers_of_def)
  have same: "step w (Change quiz_input field) = w"
    using assms(1) by (rule change_same)
  show ?thesis
    using assms(1) one many first same by (simp add: answers_of_def del: step.simps)
qed

theorem change_appends_one_answer_witness:
  "page (load ''/quiz'' []) = Some (QuizM [] []) \<and> ''g'' \<noteq> [] \<and>
   distinct_adj ([] # [''g'', ''gl'', ''g'']) \<and>
   answers_of (step (load ''/quiz'' []) (Change quiz_input ''g'')) = [''g''] \<and>
   answers_of (run (load ''/quiz'' []) (map (Change quiz_input) [''g'', ''gl'', ''g''])) =
     [''g'', ''gl'', ''g'']"
proof -
  have h: "page (load ''/quiz'' []) = Some (QuizM [] [])"
    by (simp add: load_def route_defs)
  have v: "''g'' \<noteq> []" by simp
  have d: "distinct_adj ([] # [''g'', ''gl'', ''g''])" by simp
  have a0: "answers_of (load ''/quiz'' []) = []"
    using h by (simp add: answers_of_def)
  note r = change_appends_one_answer [OF h v d]
  from r a0 have "length (answers_of (step (load ''/quiz'' []) (Change quiz_input ''g''))) = 1"
    and "last (answers_of (step (load ''/quiz'' []) (Change quiz_input ''g''))) = ''g''"
    by (simp_all del: step.simps)
  then have one: "answers_of (step (load ''/quiz'' []) (Change quiz_input ''g'')) = [''g'']"
    by (cases "answers_of (step (load ''/quiz'' []) (Change quiz_input ''g''))")
       (simp_all del: step.simps)
  from r a0
  have "answers_of (run (load ''/quiz'' []) (map (Change quiz_input) [''g'', ''gl'', ''g''])) =
     [''g'', ''gl'', ''g'']"
    by (simp del: step.simps)
  with h v d one show ?thesis by (intro conjI)
qed

text \<open>
  Claim C3. Whenever the challenge view is on the page, after any events from any
  address, it renders exactly two list items, in the order of the literal: the item of
  challenge 1 (``Recycle 10kg of plastic'', 50) and then that of challenge 2
  (``Collect and segregate organic waste'', 30).
\<close>

theorem challenge_view_renders_two_items:
  assumes "page (run (load u out) evs) = Some m" and "component_of m = ChallengeC"
  shows "list_items (render m) =
     [Elem ''li'' [(''key'', N 1)] []
        [Text ''Recycle 10kg of plastic'', Text '' - Earn '', Num 50, Text '' tokens'',
         Elem ''button'' [] [] [Text ''Accept Challenge'']],
      Elem ''li'' [(''key'', N 2)] []
        [Text ''Collect and segregate organic waste'', Text '' - Earn '', Num 30, Text '' tokens'',
         Elem ''button'' [] [] [Text ''Accept Challenge'']]]"
proof -
  from assms(2) obtain cs where m: "m = ChallengeM cs" by (cases m) simp_all
  with assms(1) have "cs = challenges_init" by (simp add: reachable_challenges)
  with m show ?thesis by (simp add: Challenge_def challenge_item_def challenges_init_def)
qed

theorem challenge_view_renders_two_items_witness:
  "page (run (load ''/'' []) [Click (nav_link 2), Click (accept_challenge 0)]) =
     Some (ChallengeM challenges_init) \<and>
   component_of (ChallengeM challenges_init) = ChallengeC \<and>
   length (list_items (render (ChallengeM challenges_init))) = 2"
proof -
  have h: "page (run (load ''/'' []) [Click (nav_link 2), Click (accept_challenge 0)]) =
     Some (ChallengeM challenges_init)"
    by (simp add: run_def load_def route_defs tree_defs position_defs fire_def navigate_def
          challenges_init_def)
  have c: "component_of (ChallengeM challenges_init) = ChallengeC" by simp
  from challenge_view_renders_two_items [OF h c]
  have "length (list_items (render (ChallengeM challenges_init))) = 2"
    by (simp only: list.size)
  with h c show ?thesis by (intro conjI)
qed

text \<open>
  Claim C4. At each of the three routes the application renders the heading of the
  view of that route, after the title of the navigation bar: ``Welcome to RepuCycle'' at
  \<^verbatim>\<open>/\<close>, ``Waste Management Quiz'' at \<^verbatim>\<open>/quiz\<close>, ``Challenges'' at
  \<^verbatim>\<open>/challenge\<close>; both when the document is loaded at the path and when the path is
  reached from any state by the link of the navigation bar.
\<close>

theorem routes_render_headings:
  "headings (App (load ''/'' out)) = [''RepuCycle'', ''Welcome to RepuCycle''] \<and>
   headings (App (load ''/quiz'' out)) = [''RepuCycle'', ''Waste Management Quiz''] \<and>
   headings (App (load ''/challenge'' out)) = [''RepuCycle'', ''Challenges''] \<and>
   headings (App (step w (Click (nav_link 0)))) = [''RepuCycle'', ''Welcome to RepuCycle''] \<and>
   headings (App (step w (Click (nav_link 1)))) = [''RepuCycle'', ''Waste Management Quiz''] \<and>
   headings (App (step w (Click (nav_link 2)))) = [''RepuCycle'', ''Challenges'']"
proof -
  have l: "headings (App (load t out)) = ''RepuCycle'' #
     (case c of HomeC \<Rightarrow> [''Welcome to RepuCycle''] | QuizC \<Rightarrow> [''Waste Management Quiz'']
      | ChallengeC \<Rightarrow> [''Challenges''])"
    if "matchRoutes routes (pathname_of t) = Some c" for t c
    using load_component [OF that, of out] headings_of_component by blast
  have n: "headings (App (navigate w t)) = ''RepuCycle'' #
     (case c of HomeC \<Rightarrow> [''Welcome to RepuCycle''] | QuizC \<Rightarrow> [''Waste Management Quiz'']
      | ChallengeC \<Rightarrow> [''Challenges''])"
    if "matchRoutes routes (pathname_of t) = Some c" for t c
    using navigate_component [OF that, of w] headings_of_component by blast
  show ?thesis
    using l [OF matched_routes(1)] l [OF matched_routes(2)] l [OF matched_routes(3)]
      n [OF matched_routes(1)] n [OF matched_routes(2)] n [OF matched_routes(3)]
    by (simp add: click_nav_link del: step.simps One_nat_def)
qed

text \<open>
  Claim C5. In every state of the application, a click on the ``Get Started'' button
  of the home view or on an ``Accept Challenge'' button of the challenge view runs no
  handler (no listener for any kind of event lies between the button and the root) and
  leaves the whole world as it was: state of the views, address and console, hence the
  rendered output too.
\<close>

theorem buttons_are_inert:
  "(page w = Some HomeM \<longrightarrow>
      node_at get_started (App w) =
        Some (Elem ''button'' [(''className'', S ''get-started'')] [] [Text ''Get Started'']) \<and>
      map_option (\<lambda>ns. fire k e (rev ns)) (chain get_started (App w)) = Some [] \<and>
      step w (Click get_started) = w) \<and>
   (page w = Some (ChallengeM cs) \<and> i < length cs \<longrightarrow>
      node_at (accept_challenge i) (App w) =
        Some (Elem ''button'' [] [] [Text ''Accept Challenge'']) \<and>
      map_option (\<lambda>ns. fire k e (rev ns)) (chain (accept_challenge i) (App w)) = Some [] \<and>
      step w (Click (accept_challenge i)) = w)"
  by (simp add: position_defs tree_defs fire_def)

theorem buttons_are_inert_witness:
  "page (load ''/'' []) = Some HomeM \<and>
   step (load ''/'' []) (Click get_started) = load ''/'' [] \<and>
   page (load ''/challenge'' []) = Some (ChallengeM challenges_init) \<and>
   1 < length challenges_init \<and>
   step (load ''/challenge'' []) (Click (accept_challenge 1)) = load ''/challenge'' []"
proof -
  have a: "page (load ''/'' []) = Some HomeM"
    and b: "page (load ''/challenge'' []) = Some (ChallengeM challenges_init)"
    by (simp_all add: load_def route_defs)
  have c: "1 < length challenges_init" by (simp add: challenges_init_def)
  from buttons_are_inert [of "load ''/'' []"] a
  have "step (load ''/'' []) (Click get_started) = load ''/'' []" by blast
  moreover from buttons_are_inert [of "load ''/challenge'' []" _ _ challenges_init 1] b c
  have "step (load ''/challenge'' []) (Click (accept_challenge 1)) = load ''/challenge'' []"
    by blast
  ultimately show ?thesis using a b c by (intro conjI)
qed

text \<open>
  Claim C6. The list of the challenge view is the literal of two records from the
  moment the view is mounted; after every sequence of events from every address a
  mounted challenge view still holds that literal, and an event inside the view (a
  click, a change or a submission at any position below the page) changes nothing at
  all.
\<close>

theorem challenge_list_is_fixed:
  "mount ChallengeC = ChallengeM challenges_init \<and>
   (page (run (load u out) evs) = Some (ChallengeM cs) \<longrightarrow> cs = challenges_init) \<and>
   (page w = Some (ChallengeM cs) \<longrightarrow>
      step w (Click (1 # pos)) = w \<and> step w (Change (1 # pos) v) = w \<and>
      step w (Submit (1 # pos)) = w)"
proof (intro conjI impI)
  show "mount ChallengeC = ChallengeM challenges_init" by simp
next
  assume "page (run (load u out) evs) = Some (ChallengeM cs)"
  then show "cs = challenges_init" by (rule reachable_challenges)
next
  assume p: "page w = Some (ChallengeM cs)"
  have "\<forall>x \<in> set (subnodes (render (ChallengeM cs))). inert x"
    by (simp add: challenge_inert)
  from inert_events [OF p this, of pos v]
  show "step w (Click (1 # pos)) = w" "step w (Change (1 # pos) v) = w"
    "step w (Submit (1 # pos)) = w"
    by (simp_all del: step.simps)
qed

theorem challenge_list_is_fixed_witness:
  "page (run (load ''/challenge'' []) [Click (accept_challenge 1), Visit ''/challenge/'']) =
     Some (ChallengeM challenges_init) \<and>
   page (load ''/challenge'' []) = Some (ChallengeM challenges_init) \<and>
   step (load ''/challenge'' []) (Click [1, 1, 0, 4]) = load ''/challenge'' []"
proof -
  have h: "page (run (load ''/challenge'' []) [Click (accept_challenge 1), Visit ''/challenge/'']) =
     Some (ChallengeM challenges_init)"
    by (simp add: run_def load_def route_defs tree_defs position_defs fire_def challenges_init_def)
  have p: "page (load ''/challenge'' []) = Some (ChallengeM challenges_init)"
    by (simp add: load_def route_defs)
  from challenge_list_is_fixed [of "''/challenge''" "[]"
      "[Click (accept_challenge 1), Visit ''/challenge/'']"
      challenges_init "load ''/challenge'' []" "[1, 0, 4]" "[]"] p
  have "step (load ''/challenge'' []) (Click [1, 1, 0, 4]) = load ''/challenge'' []"
    by (simp del: step.simps)
  with h p show ?thesis by (intro conjI)
qed



text \<open>
  Claim C8. The navigation bar renders the title ``RepuCycle'' and exactly three links,
  and their targets are, in order, the three paths of the route table: \<^verbatim>\<open>/\<close>,
  \<^verbatim>\<open>/quiz\<close> and \<^verbatim>\<open>/challenge\<close>; the router maps each target to the view of its
  route.
\<close>

theorem navbar_links_are_routes:
  "headings Navbar = [''RepuCycle''] \<and>
   link_targets Navbar = [''/'', ''/quiz'', ''/challenge''] \<and>
   link_targets Navbar = map fst routes \<and>
   map (\<lambda>t. matchRoutes routes (pathname_of t)) (link_targets Navbar) = map (Some \<circ> snd) routes"
  by (simp add: Navbar_def route_defs)

text \<open>
  Claim C9, as stated: every path other than \<^verbatim>\<open>/\<close>, \<^verbatim>\<open>/quiz\<close> and
  \<^verbatim>\<open>/challenge\<close> renders no page view. It fails at \<^verbatim>\<open>/quiz/\<close>: the router ignores
  trailing slashes, and likewise the case of letters, and it decodes percent escapes
  before it matches, so the quiz view is rendered at \<^verbatim>\<open>/quiz/\<close>, at \<^verbatim>\<open>/QUIZ\<close> and
  at \<^verbatim>\<open>/%71uiz\<close>.
\<close>

theorem trailing_slash_renders_quiz:
  "''/quiz/'' \<noteq> ''/'' \<and> ''/quiz/'' \<noteq> ''/quiz'' \<and> ''/quiz/'' \<noteq> ''/challenge'' \<and>
   page (load ''/quiz/'' []) = Some (QuizM [] []) \<and>
   App (load ''/quiz/'' []) =
     Elem ''div'' [(''className'', S ''App'')] [] [Navbar, Quiz [], Footer] \<and>
   page (load ''/QUIZ'' []) = Some (QuizM [] []) \<and>
   page (load ''/%71uiz'' []) = Some (QuizM [] [])"
  by (simp add: load_def route_defs App_def)

text \<open>
  Claim C9, amended. There is no fallback route: the application renders no page view
  exactly at the paths that none of the three patterns matches, that is, the paths whose
  pathname, with its percent escapes decoded as the router decodes them
  (\<open>pathname_of\<close>), is not \<^verbatim>\<open>/\<close>, \<^verbatim>\<open>/quiz\<close> or \<^verbatim>\<open>/challenge\<close> up to the case of
  letters and further slashes at the end; there the navigation bar and the footer are
  still rendered, and nothing else.
\<close>

theorem unmatched_path_renders_no_page:
  "(page (load u out) = None) =
     (\<forall>k. \<not> map to_lower (pathname_of u) = ''/'' @ replicate k (CHR ''/'') \<and>
          \<not> map to_lower (pathname_of u) = ''/quiz'' @ replicate k (CHR ''/'') \<and>
          \<not> map to_lower (pathname_of u) = ''/challenge'' @ replicate k (CHR ''/'')) \<and>
   (page (load u out) = None \<longrightarrow>
      App (load u out) = Elem ''div'' [(''className'', S ''App'')] [] [Navbar, Footer])"
proof -
  have a: "(page (load u out) = None) = (matchRoutes routes (pathname_of u) = None)"
    by (simp add: load_def)
  have b: "(page (load u out) = None) =
     (\<forall>k. \<not> map to_lower (pathname_of u) = ''/'' @ replicate k (CHR ''/'') \<and>
          \<not> map to_lower (pathname_of u) = ''/quiz'' @ replicate k (CHR ''/'') \<and>
          \<not> map to_lower (pathname_of u) = ''/challenge'' @ replicate k (CHR ''/''))"
    using a no_route_iff [of "pathname_of u"] by (simp only:)
  have c: "page (load u out) = None \<longrightarrow>
      App (load u out) = Elem ''div'' [(''className'', S ''App'')] [] [Navbar, Footer]"
    by (simp add: App_def)
  from b c show ?thesis by (rule conjI)
qed

theorem unmatched_path_renders_no_page_witness:
  "page (load ''/about'' []) = None \<and>
   App (load ''/about'' []) = Elem ''div'' [(''className'', S ''App'')] [] [Navbar, Footer] \<and>
   page (load ''/quiz%2F'' []) = None \<and>
   App (load ''/quiz%2F'' []) = Elem ''div'' [(''className'', S ''App'')] [] [Navbar, Footer]"
proof -
  have h: "page (load ''/about'' []) = None" and g: "page (load ''/quiz%2F'' []) = None"
    by (simp_all add: load_def route_defs)
  from unmatched_path_renders_no_page [of "''/about''" "[]"] h
  have a: "App (load ''/about'' []) =
      Elem ''div'' [(''className'', S ''App'')] [] [Navbar, Footer]"
    by blast
  from unmatched_path_renders_no_page [of "''/quiz%2F''" "[]"] g
  have b: "App (load ''/quiz%2F'' []) =
      Elem ''div'' [(''className'', S ''App'')] [] [Navbar, Footer]"
    by blast
  from h a g b show ?thesis by (intro conjI)
qed

text \<open>
  Claim C10. The value a change event appends is the whole content of the text field
  as it is, with no check: the empty string (the field emptied again) and a value
  already present are appended like any other, the value is then present once more.
  Typing a text character by character stores one entry per character, the successive
  contents of the field; on a fresh view these are the non-empty prefixes of the text,
  shortest first.
\<close>

theorem typing_stores_prefixes:
  assumes "page w = Some (QuizM answers field)" and "v \<noteq> field"
  shows "answers_of (step w (Change quiz_input v)) = answers @ [v] \<and>
         field_of (step w (Change quiz_input v)) = v \<and>
         count_list (answers_of (step w (Change quiz_input v))) v = Suc (count_list answers v) \<and>
         answers_of (type_text w s) =
           answers @ map (\<lambda>k. field @ take k s) [1..<Suc (length s)] \<and>
         answers_of (type_text (load ''/quiz'' out) s) = map (\<lambda>k. take k s) [1..<Suc (length s)]"
proof -
  have fresh: "page (load ''/quiz'' out) = Some (QuizM [] [])"
    by (simp add: load_def route_defs)
  show ?thesis
    using change_quiz [OF assms] type_text_quiz [OF assms(1), of s]
      type_text_quiz [OF fresh, of s]
    by (simp add: answers_of_def field_of_def del: step.simps upt_Suc)
qed

theorem typing_stores_prefixes_witness:
  "page (load ''/quiz'' []) = Some (QuizM [] []) \<and> ''t'' \<noteq> [] \<and>
   answers_of (type_text (load ''/quiz'' []) ''tin'') = [''t'', ''ti'', ''tin''] \<and>
   page (run (load ''/quiz'' []) [Change quiz_input ''a'', Change quiz_input []]) =
     Some (QuizM [''a'', []] []) \<and>
   ''a'' \<noteq> [] \<and>
   answers_of
     (step (run (load ''/quiz'' []) [Change quiz_input ''a'', Change quiz_input []])
        (Change quiz_input ''a'')) = [''a'', [], ''a'']"
proof -
  let ?w = "run (load ''/quiz'' []) [Change quiz_input ''a'', Change quiz_input []]"
  have h: "page (load ''/quiz'' []) = Some (QuizM [] [])"
    by (simp add: load_def route_defs)
  have t: "''t'' \<noteq> []" and a: "''a'' \<noteq> []" by simp_all
  have g: "page ?w = Some (QuizM [''a'', []] [])"
    by (simp add: run_def load_def route_defs tree_defs position_defs set_field_def fire_def
          onChange_def field_of_def)
  note r = typing_stores_prefixes [OF h t, of "''tin''" "[]"]
  have "map (\<lambda>k. take k ''tin'') [1..<Suc (length ''tin'')] = [''t'', ''ti'', ''tin'']"
    by (simp add: upt_rec)
  with r have p: "answers_of (type_text (load ''/quiz'' []) ''tin'') = [''t'', ''ti'', ''tin'']"
    by (simp del: step.simps upt_Suc)
  from typing_stores_prefixes [OF g a]
  have q: "answers_of (step ?w (Change quiz_input ''a'')) = [''a'', [], ''a'']"
    by (simp del: step.simps upt_Suc)
  from h t p g a q show ?thesis by (intro conjI)
qed

end
